theory Spec2Isabelle
  imports Main
begin

section \<open>Calendar values (the date library used by the planning board)\<close>

text \<open>
  The planning board computes all its bucket bounds with a calendar library: a value is a
  local calendar date (year, month, day) and a time of day; comparison goes through the
  number of milliseconds since a fixed origin (\<open>valueOf\<close>). The local zone is taken to
  have a fixed offset, so that one calendar day is always 86400000 ms.
\<close>

record DateTime =
  year :: int
  month :: int
  day :: int
  millis :: int

definition leap :: "int \<Rightarrow> bool" where
  "leap y = (y mod 4 = 0 \<and> (y mod 100 \<noteq> 0 \<or> y mod 400 = 0))"

definition daysInMonth :: "int \<Rightarrow> int \<Rightarrow> int" where
  "daysInMonth y m =
     (if m = 2 then (if leap y then 29 else 28)
      else if m = 4 \<or> m = 6 \<or> m = 9 \<or> m = 11 then 30 else 31)"

definition daysBeforeYear :: "int \<Rightarrow> int" where
  "daysBeforeYear y = 365 * (y - 1) + (y - 1) div 4 - (y - 1) div 100 + (y - 1) div 400"

definition daysBeforeMonth :: "int \<Rightarrow> int \<Rightarrow> int" where
  "daysBeforeMonth y m = sum_list (map (daysInMonth y) [1 .. m - 1])"

text \<open>Day number of a calendar date; day 0 is Monday 0001-01-01.\<close>

definition toDays :: "DateTime \<Rightarrow> int" where
  "toDays dt = daysBeforeYear (year dt) + daysBeforeMonth (year dt) (month dt) + (day dt - 1)"

definition valueOf :: "DateTime \<Rightarrow> int" where
  "valueOf dt = toDays dt * 86400000 + millis dt"

text \<open>The values the library hands out: fields in their calendar ranges.\<close>

definition validDate :: "DateTime \<Rightarrow> bool" where
  "validDate dt =
     (1 \<le> month dt \<and> month dt \<le> 12 \<and> 1 \<le> day dt
      \<and> day dt \<le> daysInMonth (year dt) (month dt)
      \<and> 0 \<le> millis dt \<and> millis dt < 86400000)"

text \<open>ISO weekday, 1 = Monday .. 7 = Sunday.\<close>

definition weekday :: "DateTime \<Rightarrow> int" where
  "weekday dt = toDays dt mod 7 + 1"

definition plusDay :: "DateTime \<Rightarrow> DateTime" where
  "plusDay dt =
     (if day dt < daysInMonth (year dt) (month dt) then dt\<lparr>day := day dt + 1\<rparr>
      else if month dt < 12 then dt\<lparr>month := month dt + 1, day := 1\<rparr>
      else dt\<lparr>year := year dt + 1, month := 1, day := 1\<rparr>)"

definition minusDay :: "DateTime \<Rightarrow> DateTime" where
  "minusDay dt =
     (if 1 < day dt then dt\<lparr>day := day dt - 1\<rparr>
      else if 1 < month dt
        then dt\<lparr>month := month dt - 1, day := daysInMonth (year dt) (month dt - 1)\<rparr>
      else dt\<lparr>year := year dt - 1, month := 12, day := 31\<rparr>)"

text \<open>\<open>plus({days: n})\<close>, and \<open>minus({days: k})\<close> as \<open>plusDays dt (- k)\<close>.\<close>

definition plusDays :: "DateTime \<Rightarrow> int \<Rightarrow> DateTime" where
  "plusDays dt n = (if 0 \<le> n then (plusDay ^^ nat n) dt else (minusDay ^^ nat (- n)) dt)"

text \<open>\<open>plus({weeks: n})\<close> and \<open>minus({weeks: k})\<close>.\<close>

definition plusWeeks :: "DateTime \<Rightarrow> int \<Rightarrow> DateTime" where
  "plusWeeks dt n = plusDays dt (7 * n)"

text \<open>\<open>plus({months: 1})\<close>: the next month, the day clamped to that month's length.\<close>

definition plusMonth :: "DateTime \<Rightarrow> DateTime" where
  "plusMonth dt =
     (let y = (if month dt = 12 then year dt + 1 else year dt);
          m = (if month dt = 12 then 1 else month dt + 1)
      in dt\<lparr>year := y, month := m, day := min (day dt) (daysInMonth y m)\<rparr>)"

definition startOfDay :: "DateTime \<Rightarrow> DateTime" where
  "startOfDay dt = dt\<lparr>millis := 0\<rparr>"

definition startOfMonth :: "DateTime \<Rightarrow> DateTime" where
  "startOfMonth dt = dt\<lparr>day := 1, millis := 0\<rparr>"

text \<open>\<open>set({weekday: w})\<close>: the day of the same ISO week (Monday to Sunday) with weekday \<open>w\<close>.\<close>

definition setWeekday :: "DateTime \<Rightarrow> int \<Rightarrow> DateTime" where
  "setWeekday dt w = plusDays dt (w - weekday dt)"

subsection \<open>Formatting\<close>

definition digit :: "int \<Rightarrow> char" where
  "digit n = (''0123456789'' ! nat (n mod 10))"

fun showNat :: "nat \<Rightarrow> string" where
  "showNat n = (if n < 10 then [digit (int n)] else showNat (n div 10) @ [digit (int n)])"

declare showNat.simps [simp del]

definition pad2 :: "int \<Rightarrow> string" where
  "pad2 n = (if 0 \<le> n \<and> n < 10 then CHR ''0'' # showNat (nat n) else showNat (nat n))"

definition padN :: "nat \<Rightarrow> string \<Rightarrow> string" where
  "padN k s = replicate (k - length s) CHR ''0'' @ s"

text \<open>\<open>toFormat("dd/MM")\<close>.\<close>

definition formatDayMonth :: "DateTime \<Rightarrow> string" where
  "formatDayMonth dt = pad2 (day dt) @ ''/'' @ pad2 (month dt)"

definition weekdayName :: "int \<Rightarrow> string" where
  "weekdayName w =
     (if w = 1 then ''Monday'' else if w = 2 then ''Tuesday'' else if w = 3 then ''Wednesday''
      else if w = 4 then ''Thursday'' else if w = 5 then ''Friday''
      else if w = 6 then ''Saturday'' else ''Sunday'')"

text \<open>\<open>toFormat("cccc dd/MM")\<close>, in the English locale.\<close>

definition formatWeekdayDayMonth :: "DateTime \<Rightarrow> string" where
  "formatWeekdayDayMonth dt = weekdayName (weekday dt) @ '' '' @ formatDayMonth dt"

text \<open>\<open>toISODate()\<close>: \<open>YYYY-MM-DD\<close>, the year with a sign and six digits outside 0..9999.\<close>

definition toISODate :: "DateTime \<Rightarrow> string" where
  "toISODate dt =
     (if year dt < 0 then ''-'' @ padN 6 (showNat (nat (- year dt)))
      else if 9999 < year dt then ''+'' @ padN 6 (showNat (nat (year dt)))
      else padN 4 (showNat (nat (year dt))))
     @ ''-'' @ pad2 (month dt) @ ''-'' @ pad2 (day dt)"

text \<open>
  The string form used when a value is interpolated into a log message: date and time of
  day (the zone suffix, which depends on the host, is left out).
\<close>

definition toISO :: "DateTime \<Rightarrow> string" where
  "toISO dt =
     toISODate dt @ ''T'' @ pad2 (millis dt div 3600000) @ '':''
       @ pad2 (millis dt div 60000 mod 60) @ '':'' @ pad2 (millis dt div 1000 mod 60)
       @ ''.'' @ padN 3 (showNat (nat (millis dt mod 1000)))"

text \<open>The remainder operator of the source language: the sign follows the dividend.\<close>

definition jsRem :: "int \<Rightarrow> int \<Rightarrow> int" where
  "jsRem a b = sgn a * (\<bar>a\<bar> mod \<bar>b\<bar>)"

section \<open>Todo model and settings\<close>

datatype TodoStatus = AttentionRequired | Canceled | Complete | Delegated | InProgress | Todo

text \<open>An attribute of a todo is a string or a bare flag.\<close>

datatype AttributeValue = Text string | Flag bool

text \<open>
  \<open>todoId\<close> stands for \<open>getTodoId(todo)\<close>; \<open>attributes\<close> is \<open>None\<close> when the todo
  carries no attribute mapping at all, and entries are looked up with \<open>map_of\<close>.
\<close>

record TodoItem =
  todoId :: string
  status :: TodoStatus
  attributes :: "(string \<times> AttributeValue) list option"

text \<open>Truthiness of \<open>attributes[name]\<close>: a missing entry is \<open>undefined\<close>.\<close>

fun truthy :: "AttributeValue option \<Rightarrow> bool" where
  "truthy None = False"
| "truthy (Some (Text s)) = (s \<noteq> [])"
| "truthy (Some (Flag b)) = b"

text \<open>The template string \<open>`${v}`\<close>.\<close>

fun interpolate :: "AttributeValue \<Rightarrow> string" where
  "interpolate (Text s) = s"
| "interpolate (Flag b) = (if b then ''true'' else ''false'')"

record Settings =
  dueDateAttribute :: string
  completedDateAttribute :: string
  selectedAttribute :: string
  startedAttribute :: string
  firstWeekday :: "int option"
  showWeekEnds :: bool
  trackStartTime :: bool

record WipLimit =
  isLimited :: bool
  dailyLimit :: int

record PlanningSettings =
  hideEmpty :: bool
  wipLimit :: WipLimit

section \<open>Date range queries (PlanningComponent)\<close>

text \<open>
  \<open>fromISO\<close> is the library's ISO parser, \<open>None\<close> for a string it does not accept
  (\<open>isValid\<close> false). \<open>filteredTodos\<close> is the todo list after the search filter.
\<close>

definition findTodoDate :: "(string \<Rightarrow> DateTime option) \<Rightarrow> TodoItem \<Rightarrow> string \<Rightarrow> DateTime option" where
  "findTodoDate fromISO todo attribute =
     (case attributes todo of
        None \<Rightarrow> None
      | Some a \<Rightarrow>
          (case map_of a attribute of
             None \<Rightarrow> None
           | Some attr \<Rightarrow> if truthy (Some attr) then fromISO (interpolate attr) else None))"

definition dateIsInRange :: "DateTime option \<Rightarrow> DateTime option \<Rightarrow> DateTime option \<Rightarrow> bool" where
  "dateIsInRange fromD toD date =
     (case date of
        None \<Rightarrow> False
      | Some d \<Rightarrow>
          (case fromD of None \<Rightarrow> True | Some f \<Rightarrow> valueOf f \<le> valueOf d)
          \<and> (case toD of None \<Rightarrow> True | Some t \<Rightarrow> valueOf d < valueOf t))"

definition todoInRange ::
  "(string \<Rightarrow> DateTime option) \<Rightarrow> Settings \<Rightarrow> DateTime option \<Rightarrow> DateTime option \<Rightarrow> bool
     \<Rightarrow> TodoItem \<Rightarrow> bool" where
  "todoInRange fromISO s fromD toD includeSelected todo =
     (let isDone = (status todo = Complete \<or> status todo = Canceled);
          isSelected = (case attributes todo of
                          None \<Rightarrow> False
                        | Some a \<Rightarrow> truthy (map_of a (selectedAttribute s)));
          dueDate = findTodoDate fromISO todo (dueDateAttribute s);
          completedDate = findTodoDate fromISO todo (completedDateAttribute s);
          dueDateIsInRange = dateIsInRange fromD toD dueDate;
          completedDateIsInRange = dateIsInRange fromD toD completedDate
      in dueDateIsInRange
         \<or> (includeSelected \<and> isSelected \<and> (isDone \<and> completedDateIsInRange \<or> \<not> isDone)))"

definition getTodosByDate ::
  "(string \<Rightarrow> DateTime option) \<Rightarrow> Settings \<Rightarrow> TodoItem list
     \<Rightarrow> DateTime option \<Rightarrow> DateTime option \<Rightarrow> bool \<Rightarrow> TodoItem list" where
  "getTodosByDate fromISO s filteredTodos fromD toD includeSelected =
     filter (\<lambda>todo. attributes todo \<noteq> None \<and> todoInRange fromISO s fromD toD includeSelected todo)
       filteredTodos"

definition getTodosWithNoDate ::
  "(string \<Rightarrow> DateTime option) \<Rightarrow> Settings \<Rightarrow> TodoItem list \<Rightarrow> TodoItem list" where
  "getTodosWithNoDate fromISO s filteredTodos =
     filter (\<lambda>todo. findTodoDate fromISO todo (dueDateAttribute s) = None
               \<and> (case attributes todo of
                     None \<Rightarrow> False
                   | Some a \<Rightarrow> \<not> truthy (map_of a (selectedAttribute s))
                       \<and> status todo \<noteq> Canceled \<and> status todo \<noteq> Complete))
       filteredTodos"

definition getTodosByDateAndStatus ::
  "(string \<Rightarrow> DateTime option) \<Rightarrow> Settings \<Rightarrow> TodoItem list
     \<Rightarrow> DateTime \<Rightarrow> DateTime \<Rightarrow> TodoStatus list \<Rightarrow> TodoItem list" where
  "getTodosByDateAndStatus fromISO s filteredTodos fromD toD statuses =
     filter (\<lambda>todo. List.member statuses (status todo))
       (getTodosByDate fromISO s filteredTodos (Some fromD) (Some toD) True)"

section \<open>Commands\<close>

text \<open>
  A command's observable effect: what it writes to the logger and which mutation requests
  it hands to the file operations, in the order issued.
\<close>

datatype LogEntry = Debug string | Warn string

datatype Request =
    UpdateAttribute TodoItem string string
  | RemoveAttribute TodoItem string
  | UpdateTodoStatus TodoItem string

record Effects =
  logged :: "LogEntry list"
  requests :: "Request list"

definition findTodo :: "TodoItem list \<Rightarrow> string \<Rightarrow> TodoItem option" where
  "findTodo todos tid = find (\<lambda>todo. todoId todo = tid) todos"

definition notFoundMessage :: "string \<Rightarrow> string" where
  "notFoundMessage tid = ''Todo '' @ tid @ '' not found, couldn'' @ [CHR 0x27] @ ''t move''"

definition moveToDate :: "Settings \<Rightarrow> TodoItem list \<Rightarrow> DateTime \<Rightarrow> string \<Rightarrow> Effects" where
  "moveToDate s todos date tid =
     (let moving = Debug (''Moving '' @ tid @ '' to '' @ toISO date)
      in case findTodo todos tid of
           None \<Rightarrow> \<lparr>logged = [moving, Warn (notFoundMessage tid)], requests = []\<rparr>
         | Some todo \<Rightarrow>
             \<lparr>logged = [moving],
              requests = [UpdateAttribute todo (dueDateAttribute s) (toISODate date)]\<rparr>)"

definition removeDate :: "Settings \<Rightarrow> TodoItem list \<Rightarrow> string \<Rightarrow> Effects" where
  "removeDate s todos tid =
     (case findTodo todos tid of
        None \<Rightarrow> \<lparr>logged = [], requests = []\<rparr>
      | Some todo \<Rightarrow> \<lparr>logged = [], requests = [RemoveAttribute todo (dueDateAttribute s)]\<rparr>)"

text \<open>
  The three sub-requests are chained with \<open>then\<close>: a request is issued only once the one
  before it has completed successfully. \<open>resolves r\<close> tells whether the file operation
  behind \<open>r\<close> succeeds. The todo's status is overwritten before the first request, so all
  requests carry the new status. Reading the started attribute of a todo without an
  attribute mapping raises inside the last callback, which issues nothing. \<open>now\<close> is the
  clock when the second request has completed.
\<close>

definition moveToDateAndStatus ::
  "Settings \<Rightarrow> (Request \<Rightarrow> bool) \<Rightarrow> DateTime \<Rightarrow> TodoItem list
     \<Rightarrow> DateTime \<Rightarrow> TodoStatus \<Rightarrow> string \<Rightarrow> Effects" where
  "moveToDateAndStatus s resolves now todos date st tid =
     (let moving = Debug (''Moving '' @ tid @ '' to '' @ toISO date)
      in case findTodo todos tid of
           None \<Rightarrow> \<lparr>logged = [moving, Warn (notFoundMessage tid)], requests = []\<rparr>
         | Some found \<Rightarrow>
             (let todo = found\<lparr>status := st\<rparr>;
                  first = UpdateAttribute todo (dueDateAttribute s) (toISODate date);
                  second = UpdateTodoStatus todo (completedDateAttribute s);
                  third = UpdateAttribute todo (startedAttribute s) (toISODate now)
              in \<lparr>logged = [moving],
                  requests =
                    (if \<not> resolves first then [first]
                     else if \<not> resolves second then [first, second]
                     else (case attributes todo of
                             None \<Rightarrow> [first, second]
                           | Some a \<Rightarrow>
                               if trackStartTime s \<and> \<not> truthy (map_of a (startedAttribute s))
                                  \<and> st = InProgress
                               then [first, second, third]
                               else [first, second]))\<rparr>))"

text \<open>
  The click handler of the status checkbox (TodoStatusComponent): nothing happens on an
  event that was already handled; otherwise the status is toggled and written back.
\<close>

definition onclick :: "Settings \<Rightarrow> bool \<Rightarrow> TodoItem \<Rightarrow> Effects" where
  "onclick s defaultPrevented todo =
     (if defaultPrevented then \<lparr>logged = [], requests = []\<rparr>
      else
        (let wasCompleted = (status todo = Complete \<or> status todo = Canceled);
             todo' = todo\<lparr>status := (if wasCompleted then Todo else Complete)\<rparr>
         in \<lparr>logged = [Debug (''Changing status on '' @ todoId todo)],
             requests = [UpdateTodoStatus todo' (completedDateAttribute s)]\<rparr>))"

section \<open>Columns\<close>

text \<open>
  A column as handed to the renderer. The drop handler is a closure in the source; here it
  is the command it stands for, run by \<open>moveToDate\<close>, \<open>removeDate\<close> or
  \<open>moveToDateAndStatus\<close> on the dropped todo's id. \<open>substyle\<close> is \<open>None\<close> when the
  argument is not passed.
\<close>

datatype Icon = PageIcon | CobwebIcon | CalendarIcon | SquareIcon | ForwardIcon | CheckIcon

datatype DropTarget =
    MoveToDate DateTime
  | RemoveDate
  | MoveToDateAndStatus DateTime TodoStatus

record Column =
  icon :: Icon
  title :: string
  todos :: "TodoItem list"
  hideIfEmpty :: bool
  onTodoDropped :: "DropTarget option"
  substyle :: "string option"

definition todoColumn ::
  "Icon \<Rightarrow> string \<Rightarrow> TodoItem list \<Rightarrow> bool \<Rightarrow> DropTarget option \<Rightarrow> string option \<Rightarrow> Column" where
  "todoColumn i t ts h d sub =
     \<lparr>icon = i, title = t, todos = ts, hideIfEmpty = h, onTodoDropped = d, substyle = sub\<rparr>"

definition getWipStyle :: "PlanningSettings \<Rightarrow> TodoItem list \<Rightarrow> string" where
  "getWipStyle ps ts =
     (if isLimited (wipLimit ps)
      then (if dailyLimit (wipLimit ps) < int (length ts) then ''wip-exceeded'' else [])
      else [])"


definition getTodayColumns ::
  "(string \<Rightarrow> DateTime option) \<Rightarrow> Settings \<Rightarrow> TodoItem list \<Rightarrow> DateTime \<Rightarrow> Column list" where
  "getTodayColumns fromISO s filteredTodos now =
     (let today = startOfDay now;
          tomorrow = plusDays today 1
      in [todoColumn SquareIcon ''Todo''
            (getTodosByDateAndStatus fromISO s filteredTodos today tomorrow [Todo])
            False (Some (MoveToDateAndStatus today Todo)) (Some ''today''),
          todoColumn ForwardIcon ''In progress''
            (getTodosByDateAndStatus fromISO s filteredTodos today tomorrow
               [AttentionRequired, Delegated, InProgress])
            False (Some (MoveToDateAndStatus today InProgress)) (Some ''today''),
          todoColumn CheckIcon ''Done''
            (getTodosByDateAndStatus fromISO s filteredTodos today tomorrow [Canceled, Complete])
            False (Some (MoveToDateAndStatus today Complete)) (Some ''today'')])"

text \<open>
  The body shared by the daily, weekly and monthly loops once the label and the bounds are
  known: query (the third argument of the query is not passed, so it takes its default,
  false), style, column.
\<close>

definition bracketColumn ::
  "(string \<Rightarrow> DateTime option) \<Rightarrow> Settings \<Rightarrow> PlanningSettings \<Rightarrow> TodoItem list
     \<Rightarrow> string \<Rightarrow> DateTime \<Rightarrow> DateTime \<Rightarrow> Column" where
  "bracketColumn fromISO s ps filteredTodos label start stop =
     (let ts = getTodosByDate fromISO s filteredTodos (Some start) (Some stop) False;
          style = getWipStyle ps ts
      in todoColumn CalendarIcon label ts (hideEmpty ps) (Some (MoveToDate start)) (Some style))"

text \<open>The daily loop, \<open>for (let i = 0; i < 6; i++)\<close>, from its state \<open>(i, dayStart)\<close>.\<close>

function dailyColumns ::
  "(string \<Rightarrow> DateTime option) \<Rightarrow> Settings \<Rightarrow> PlanningSettings \<Rightarrow> TodoItem list
     \<Rightarrow> int \<Rightarrow> nat \<Rightarrow> DateTime \<Rightarrow> Column list" where
  "dailyColumns fromISO s ps filteredTodos fwd i dayStart =
     (if i < 6 then
        (let dayEnd = plusDays dayStart 1;
             localDay = jsRem (weekday dayStart - fwd + 7) 7 + 1
         in if \<not> showWeekEnds s \<and> 6 \<le> localDay
            then dailyColumns fromISO s ps filteredTodos fwd (i + 1) dayEnd
            else
              (let label = (if i = 0 then ''Tomorrow'' else formatWeekdayDayMonth dayStart)
               in bracketColumn fromISO s ps filteredTodos label dayStart dayEnd
                  # dailyColumns fromISO s ps filteredTodos fwd (i + 1) dayEnd))
      else [])"
  by pat_completeness auto
termination
  by (relation "measure (\<lambda>(fromISO, s, ps, filteredTodos, fwd, i, dayStart). 6 - i)") auto

declare dailyColumns.simps [simp del]

text \<open>The weekly loop, from its state \<open>(i, weekStart)\<close>.\<close>

function weeklyColumns ::
  "(string \<Rightarrow> DateTime option) \<Rightarrow> Settings \<Rightarrow> PlanningSettings \<Rightarrow> TodoItem list
     \<Rightarrow> nat \<Rightarrow> DateTime \<Rightarrow> Column list" where
  "weeklyColumns fromISO s ps filteredTodos i weekStart =
     (if i < 4 then
        (let weekEnd = plusWeeks weekStart 1;
             label = (if i = 0 then ''Next week''
                      else ''Week +'' @ showNat (i + 1) @ '' ('' @ formatDayMonth weekStart
                           @ '' - '' @ formatDayMonth (plusDays weekEnd (- 1)) @ '')'')
         in bracketColumn fromISO s ps filteredTodos label weekStart weekEnd
            # weeklyColumns fromISO s ps filteredTodos (i + 1) weekEnd)
      else [])"
  by pat_completeness auto
termination
  by (relation "measure (\<lambda>(fromISO, s, ps, filteredTodos, i, weekStart). 4 - i)") auto

declare weeklyColumns.simps [simp del]

text \<open>
  The monthly loop, from its state \<open>(i, monthStart)\<close>; it also returns the final
  \<open>monthStart\<close>, which bounds the last column.
\<close>

function monthlyColumns ::
  "(string \<Rightarrow> DateTime option) \<Rightarrow> Settings \<Rightarrow> PlanningSettings \<Rightarrow> TodoItem list
     \<Rightarrow> nat \<Rightarrow> DateTime \<Rightarrow> Column list \<times> DateTime" where
  "monthlyColumns fromISO s ps filteredTodos i monthStart =
     (if i < 3 then
        (let monthEnd = plusMonth monthStart;
             label = (if i = 0 then ''Next month''
                      else ''Month +'' @ showNat (i + 1) @ '' ('' @ formatDayMonth monthStart
                           @ '' - '' @ formatDayMonth (plusDays monthEnd (- 1)) @ '')'');
             rest = monthlyColumns fromISO s ps filteredTodos (i + 1) monthEnd
         in (bracketColumn fromISO s ps filteredTodos label monthStart monthEnd # fst rest,
             snd rest))
      else ([], monthStart))"
  by pat_completeness auto
termination
  by (relation "measure (\<lambda>(fromISO, s, ps, filteredTodos, i, monthStart). 3 - i)") auto

declare monthlyColumns.simps [simp del]

definition backlogColumn ::
  "(string \<Rightarrow> DateTime option) \<Rightarrow> Settings \<Rightarrow> TodoItem list \<Rightarrow> Column" where
  "backlogColumn fromISO s filteredTodos =
     todoColumn PageIcon ''Backlog'' (getTodosWithNoDate fromISO s filteredTodos)
       False (Some RemoveDate) None"

definition pastColumn ::
  "(string \<Rightarrow> DateTime option) \<Rightarrow> Settings \<Rightarrow> TodoItem list \<Rightarrow> DateTime \<Rightarrow> Column" where
  "pastColumn fromISO s filteredTodos today =
     todoColumn CobwebIcon ''Past''
       (filter (\<lambda>todo. status todo \<noteq> Canceled \<and> status todo \<noteq> Complete)
          (getTodosByDate fromISO s filteredTodos None (Some today) False))
       True None None"

definition laterColumn ::
  "(string \<Rightarrow> DateTime option) \<Rightarrow> Settings \<Rightarrow> PlanningSettings \<Rightarrow> TodoItem list
     \<Rightarrow> DateTime \<Rightarrow> Column" where
  "laterColumn fromISO s ps filteredTodos monthStart =
     todoColumn CalendarIcon ''Later''
       (getTodosByDate fromISO s filteredTodos (Some monthStart) None False)
       (hideEmpty ps) (Some (MoveToDate monthStart)) None"

text \<open>The start of the first weekly bracket.\<close>

definition firstWeekStart :: "DateTime \<Rightarrow> int \<Rightarrow> DateTime" where
  "firstWeekStart today fwd =
     (let startOfThisWeek = setWeekday today fwd;
          startOfThisWeek = (if valueOf today < valueOf startOfThisWeek
                             then plusWeeks startOfThisWeek (- 1) else startOfThisWeek)
      in plusWeeks startOfThisWeek 1)"

definition getColumns ::
  "(string \<Rightarrow> DateTime option) \<Rightarrow> Settings \<Rightarrow> PlanningSettings \<Rightarrow> TodoItem list
     \<Rightarrow> DateTime \<Rightarrow> Column list" where
  "getColumns fromISO s ps filteredTodos now =
     (let today = startOfDay now;
          fwd = (case firstWeekday s of None \<Rightarrow> 1 | Some w \<Rightarrow> w);
          monthly = monthlyColumns fromISO s ps filteredTodos 0 (plusMonth (startOfMonth today))
      in backlogColumn fromISO s filteredTodos
         # pastColumn fromISO s filteredTodos today
         # dailyColumns fromISO s ps filteredTodos fwd 0 (plusDays today 1)
         @ weeklyColumns fromISO s ps filteredTodos 0 (firstWeekStart today fwd)
         @ fst monthly
         @ [laterColumn fromISO s ps filteredTodos (snd monthly)])"

section \<open>Reference notions and example values\<close>

text \<open>
  The toggle as the specification words it: the two done statuses go back to \<open>Todo\<close>,
  every open status goes to \<open>Complete\<close>.
\<close>

fun spec_toggle :: "TodoStatus \<Rightarrow> TodoStatus" where
  "spec_toggle Complete = Todo"
| "spec_toggle Canceled = Todo"
| "spec_toggle Todo = Complete"
| "spec_toggle InProgress = Complete"
| "spec_toggle AttentionRequired = Complete"
| "spec_toggle Delegated = Complete"

text \<open>Open statuses, as the specification lists them.\<close>

fun spec_open :: "TodoStatus \<Rightarrow> bool" where
  "spec_open Todo = True"
| "spec_open InProgress = True"
| "spec_open AttentionRequired = True"
| "spec_open Delegated = True"
| "spec_open Complete = False"
| "spec_open Canceled = False"

text \<open>A todo carries the selected marker: the attribute is present and truthy.\<close>

definition spec_selected :: "Settings \<Rightarrow> TodoItem \<Rightarrow> bool" where
  "spec_selected s todo =
     (case attributes todo of None \<Rightarrow> False | Some a \<Rightarrow> truthy (map_of a (selectedAttribute s)))"


text \<open>
  An ISO parser for the examples: it accepts exactly the calendar form \<open>YYYY-MM-DD\<close> of
  an existing date.
\<close>

definition digitValue :: "char \<Rightarrow> int option" where
  "digitValue c =
     (let n = (of_char c :: nat) in if 48 \<le> n \<and> n \<le> 57 then Some (int n - 48) else None)"

fun digitsValue :: "int \<Rightarrow> string \<Rightarrow> int option" where
  "digitsValue acc [] = Some acc"
| "digitsValue acc (c # cs) =
     (case digitValue c of None \<Rightarrow> None | Some v \<Rightarrow> digitsValue (10 * acc + v) cs)"

definition isoCalendarDate :: "string \<Rightarrow> DateTime option" where
  "isoCalendarDate str =
     (if length str = 10 \<and> str ! 4 = CHR ''-'' \<and> str ! 7 = CHR ''-'' then
        (case (digitsValue 0 (take 4 str), digitsValue 0 (take 2 (drop 5 str)),
               digitsValue 0 (drop 8 str)) of
           (Some y, Some m, Some d) \<Rightarrow>
             (let dt = \<lparr>year = y, month = m, day = d, millis = 0\<rparr>
              in if validDate dt then Some dt else None)
         | _ \<Rightarrow> None)
      else None)"

definition date :: "int \<Rightarrow> int \<Rightarrow> int \<Rightarrow> DateTime" where
  "date y m d = \<lparr>year = y, month = m, day = d, millis = 0\<rparr>"

definition exampleSettings :: Settings where
  "exampleSettings =
     \<lparr>dueDateAttribute = ''due'', completedDateAttribute = ''completed'',
      selectedAttribute = ''selected'', startedAttribute = ''started'',
      firstWeekday = Some 1, showWeekEnds = True, trackStartTime = True\<rparr>"

definition examplePlanning :: PlanningSettings where
  "examplePlanning = \<lparr>hideEmpty = False, wipLimit = \<lparr>isLimited = True, dailyLimit = 3\<rparr>\<rparr>"

definition exampleTodo :: "string \<Rightarrow> TodoStatus \<Rightarrow> (string \<times> AttributeValue) list \<Rightarrow> TodoItem" where
  "exampleTodo i st a = \<lparr>todoId = i, status = st, attributes = Some a\<rparr>"

section \<open>Calendar arithmetic\<close>

lemma div_step:
  fixes y k :: int
  assumes "0 < k"
  shows "y div k = (y - 1) div k + (if y mod k = 0 then 1 else 0)"
proof (cases "y mod k = 0")
  case True
  have "y - 1 = k * (y div k - 1) + (k - 1)"
    using True by (simp add: algebra_simps) (metis True mult.commute div_mult_mod_eq add.right_neutral)
  then have "(y - 1) div k = y div k - 1"
    using assms by (metis int_div_pos_eq diff_ge_0_iff_ge diff_less zero_less_one less_le_not_le linorder_not_less zle_diff1_eq)
  then show ?thesis using True by simp
next
  case False
  have "0 \<le> y mod k" "y mod k < k"
    using assms by (simp_all add: pos_mod_sign pos_mod_bound)
  with False have r: "0 \<le> y mod k - 1" "y mod k - 1 < k" by simp_all
  have "y - 1 = k * (y div k) + (y mod k - 1)" by simp
  then have "(y - 1) div k = y div k"
    using r by (rule int_div_pos_eq [where r = "y mod k - 1"])
  then show ?thesis using False by simp
qed

lemma leap_count:
  "(c \<longrightarrow> b) \<Longrightarrow> (b \<longrightarrow> a) \<Longrightarrow>
     (if a then 1 else 0) - (if b then 1 else 0) + (if c then 1 else 0)
       = (if a \<and> (\<not> b \<or> c) then (1::int) else 0)"
  by (cases a; cases b; cases c; simp)

lemma year_step:
  fixes y A B C a b c ea eb ec e :: int
  assumes "A = a + ea" "B = b + eb" "C = c + ec" "ea - eb + ec = e"
  shows "365 * y + A - B + C = 365 * (y - 1) + a - b + c + (365 + e)"
proof -
  have "e = ea - eb + ec" using assms(4) by simp
  then show ?thesis unfolding assms(1-3) by simp
qed

lemma dvd_mod_0:
  fixes y :: int
  assumes "y mod m = 0" "k dvd m"
  shows "y mod k = 0"
proof -
  have "m dvd y" using assms(1) by (simp add: mod_eq_0_iff_dvd)
  with assms(2) have "k dvd y" by (rule dvd_trans)
  then show ?thesis by (simp add: mod_eq_0_iff_dvd)
qed

lemma daysBeforeYear_next:
  "daysBeforeYear (y + 1) = daysBeforeYear y + (if leap y then 366 else 365)"
proof -
  have a: "y div 4 = (y - 1) div 4 + (if y mod 4 = 0 then 1 else 0)"
    by (rule div_step) simp
  have b: "y div 100 = (y - 1) div 100 + (if y mod 100 = 0 then 1 else 0)"
    by (rule div_step) simp
  have c: "y div 400 = (y - 1) div 400 + (if y mod 400 = 0 then 1 else 0)"
    by (rule div_step) simp
  have d1: "y mod 400 = 0 \<longrightarrow> y mod 100 = 0"
    using dvd_mod_0 [of y 400 100] by simp
  have d2: "y mod 100 = 0 \<longrightarrow> y mod 4 = 0"
    using dvd_mod_0 [of y 100 4] by simp
  have e: "(if y mod 4 = 0 then 1 else 0) - (if y mod 100 = 0 then 1 else 0)
             + (if y mod 400 = 0 then 1 else 0) = (if leap y then (1::int) else 0)"
    unfolding leap_def by (rule leap_count [OF d1 d2])
  have "365 * y + y div 4 - y div 100 + y div 400
          = 365 * (y - 1) + (y - 1) div 4 - (y - 1) div 100 + (y - 1) div 400
            + (365 + (if leap y then 1 else 0))"
    by (rule year_step [OF a b c e])
  moreover have "365 + (if leap y then 1 else 0) = (if leap y then 366 else (365::int))"
    by simp
  moreover have "daysBeforeYear (y + 1) = 365 * y + y div 4 - y div 100 + y div 400"
    unfolding daysBeforeYear_def by (simp only: add_diff_cancel_right')
  ultimately show ?thesis
    unfolding daysBeforeYear_def by (simp only:)
qed

lemma daysInMonth_pos: "28 \<le> daysInMonth y m" "daysInMonth y m \<le> 31"
  by (simp_all add: daysInMonth_def)


lemma daysBeforeMonth_next:
  "1 \<le> m \<Longrightarrow> daysBeforeMonth y (m + 1) = daysBeforeMonth y m + daysInMonth y m"
  by (simp add: daysBeforeMonth_def upto_rec2)

lemma daysBeforeMonth_1: "daysBeforeMonth y 1 = 0"
  by (simp add: daysBeforeMonth_def)

lemma daysBeforeMonth_13: "daysBeforeMonth y 13 = (if leap y then 366 else 365)"
  by (simp add: daysBeforeMonth_def upto.simps daysInMonth_def)

lemma toDays_plusDay:
  assumes "validDate dt"
  shows "toDays (plusDay dt) = toDays dt + 1"
proof -
  have m: "1 \<le> month dt" "month dt \<le> 12" and d: "day dt \<le> daysInMonth (year dt) (month dt)"
    using assms by (simp_all add: validDate_def)
  show ?thesis
  proof (cases "day dt < daysInMonth (year dt) (month dt)")
    case True
    then show ?thesis by (simp add: plusDay_def toDays_def)
  next
    case False
    with d have e: "day dt = daysInMonth (year dt) (month dt)" by simp
    show ?thesis
    proof (cases "month dt < 12")
      case True
      then show ?thesis using False e daysBeforeMonth_next [OF m(1), of "year dt"]
        by (simp add: plusDay_def toDays_def)
    next
      case False
      with m have m12: "month dt = 12" by simp
      have "daysBeforeMonth (year dt) 13 = daysBeforeMonth (year dt) 12 + daysInMonth (year dt) 12"
        using daysBeforeMonth_next [of 12 "year dt"] by simp
      then show ?thesis using e m12 daysBeforeYear_next [of "year dt"]
        by (simp add: plusDay_def toDays_def daysBeforeMonth_13 daysBeforeMonth_1)
    qed
  qed
qed

lemma validDate_plusDay: "validDate dt \<Longrightarrow> validDate (plusDay dt)"
  using daysInMonth_pos [of "year dt" "month dt + 1"] daysInMonth_pos [of "year dt + 1" 1]
  by (auto simp add: validDate_def plusDay_def)

lemma millis_plusDay: "millis (plusDay dt) = millis dt"
  by (simp add: plusDay_def)

lemma toDays_minusDay:
  assumes "validDate dt"
  shows "toDays (minusDay dt) = toDays dt - 1"
proof -
  have m: "1 \<le> month dt" "month dt \<le> 12" and d: "1 \<le> day dt"
    using assms by (simp_all add: validDate_def)
  show ?thesis
  proof (cases "1 < day dt")
    case True
    then show ?thesis by (simp add: minusDay_def toDays_def)
  next
    case False
    with d have e: "day dt = 1" by simp
    show ?thesis
    proof (cases "1 < month dt")
      case True
      then have "daysBeforeMonth (year dt) (month dt - 1 + 1)
                 = daysBeforeMonth (year dt) (month dt - 1) + daysInMonth (year dt) (month dt - 1)"
        by (intro daysBeforeMonth_next) simp
      then show ?thesis using True e by (simp add: minusDay_def toDays_def)
    next
      case False
      with m have m1: "month dt = 1" by simp
      have "daysBeforeMonth (year dt - 1) 13
              = daysBeforeMonth (year dt - 1) 12 + daysInMonth (year dt - 1) 12"
        using daysBeforeMonth_next [of 12 "year dt - 1"] by simp
      then show ?thesis using e m1 daysBeforeYear_next [of "year dt - 1"]
        by (simp add: minusDay_def toDays_def daysBeforeMonth_13 daysBeforeMonth_1 daysInMonth_def)
    qed
  qed
qed

lemma validDate_minusDay: "validDate dt \<Longrightarrow> validDate (minusDay dt)"
  using daysInMonth_pos [of "year dt" "month dt - 1"]
  by (auto simp add: validDate_def minusDay_def daysInMonth_def)

lemma millis_minusDay: "millis (minusDay dt) = millis dt"
  by (simp add: minusDay_def)

lemma funpow_plusDay:
  "validDate dt \<Longrightarrow> validDate ((plusDay ^^ k) dt) \<and> toDays ((plusDay ^^ k) dt) = toDays dt + int k
     \<and> millis ((plusDay ^^ k) dt) = millis dt"
  by (induction k) (simp_all add: validDate_plusDay toDays_plusDay millis_plusDay)

lemma funpow_minusDay:
  "validDate dt \<Longrightarrow> validDate ((minusDay ^^ k) dt) \<and> toDays ((minusDay ^^ k) dt) = toDays dt - int k
     \<and> millis ((minusDay ^^ k) dt) = millis dt"
  by (induction k) (simp_all add: validDate_minusDay toDays_minusDay millis_minusDay)

lemma plusDays_props:
  assumes "validDate dt"
  shows "validDate (plusDays dt n)" "toDays (plusDays dt n) = toDays dt + n"
    "millis (plusDays dt n) = millis dt"
  using funpow_plusDay [OF assms, of "nat n"] funpow_minusDay [OF assms, of "nat (- n)"]
  by (simp_all add: plusDays_def)

lemma valueOf_plusDays:
  "validDate dt \<Longrightarrow> valueOf (plusDays dt n) = valueOf dt + n * 86400000"
  by (simp add: valueOf_def plusDays_props algebra_simps)


lemma validDate_startOfDay: "validDate dt \<Longrightarrow> validDate (startOfDay dt)"
  by (simp add: validDate_def startOfDay_def)



lemma valueOf_date: "valueOf (date y m d) = toDays (date y m d) * 86400000"
  by (simp add: valueOf_def date_def)

lemma toDays_same_month: "toDays (date y m d) - toDays (date y m d') = d - d'"
  by (simp add: toDays_def date_def)

section \<open>The range test\<close>

text \<open>
  Claim C6. The date-range membership test is half-open and lower-inclusive: a date \<open>d\<close>
  is in the range \<open>{from, to}\<close> exactly when (\<open>from\<close> is null or \<open>d \<ge> from\<close>) and
  (\<open>to\<close> is null or \<open>d < to\<close>); a null date is never in range, a date equal to
  \<open>from\<close> passes the lower bound, and a date equal to \<open>to\<close> is excluded.
\<close>

theorem dateIsInRange_half_open:
  "dateIsInRange fromD toD (Some d)
     = ((fromD = None \<or> valueOf (the fromD) \<le> valueOf d)
        \<and> (toD = None \<or> valueOf d < valueOf (the toD)))
   \<and> \<not> dateIsInRange fromD toD None
   \<and> dateIsInRange (Some d) toD (Some d) = (toD = None \<or> valueOf d < valueOf (the toD))
   \<and> \<not> dateIsInRange fromD (Some d) (Some d)"
  by (simp add: dateIsInRange_def split: option.splits)

theorem dateIsInRange_half_open_witness:
  "dateIsInRange (Some (date 2024 6 10)) (Some (date 2024 6 11)) (Some (date 2024 6 10))
   \<and> \<not> dateIsInRange (Some (date 2024 6 10)) (Some (date 2024 6 11)) (Some (date 2024 6 11))
   \<and> \<not> dateIsInRange (Some (date 2024 6 10)) (Some (date 2024 6 11)) None"
proof -
  have v: "valueOf (date 2024 6 10) < valueOf (date 2024 6 11)"
    using toDays_same_month [of 2024 6 11 10] by (simp add: valueOf_date)
  show ?thesis
    using v dateIsInRange_half_open [of "Some (date 2024 6 10)" "Some (date 2024 6 11)" "date 2024 6 10"]
      dateIsInRange_half_open [of "Some (date 2024 6 10)" "Some (date 2024 6 11)" "date 2024 6 11"]
    by simp
qed

section \<open>The status toggle\<close>

text \<open>
  Claim C8. A click that is handled requests exactly one status write, and the status it
  writes is \<open>Todo\<close> when the todo was \<open>Complete\<close> or \<open>Canceled\<close>, and \<open>Complete\<close> for
  each of \<open>Todo\<close>, \<open>InProgress\<close>, \<open>AttentionRequired\<close> and \<open>Delegated\<close>.
\<close>

theorem onclick_toggles_status:
  "requests (onclick s False todo)
     = [UpdateTodoStatus (todo\<lparr>status := spec_toggle (status todo)\<rparr>) (completedDateAttribute s)]"
  by (cases "status todo") (simp_all add: onclick_def)

theorem onclick_toggles_status_witness:
  "requests (onclick exampleSettings False (exampleTodo ''a'' Canceled []))
     = [UpdateTodoStatus (exampleTodo ''a'' Todo []) ''completed'']
   \<and> requests (onclick exampleSettings False (exampleTodo ''b'' InProgress []))
     = [UpdateTodoStatus (exampleTodo ''b'' Complete []) ''completed'']"
  using onclick_toggles_status [of exampleSettings "exampleTodo ''a'' Canceled []"]
    onclick_toggles_status [of exampleSettings "exampleTodo ''b'' InProgress []"]
  by (simp add: exampleTodo_def exampleSettings_def)

section \<open>The column loops, unrolled\<close>

lemma upt_shift: "[0..<Suc n] = 0 # map Suc [0..<n]"
  by (simp add: upt_conv_Cons map_Suc_upt del: upt_Suc)

lemma funpow_plusDays_1:
  "plusDays (((\<lambda>x. plusDays x 1) ^^ k) d) 1 = ((\<lambda>x. plusDays x 1) ^^ k) (plusDays d 1)"
  by (induction k) simp_all

lemma funpow_plusWeeks_1:
  "plusWeeks (((\<lambda>x. plusWeeks x 1) ^^ k) w) 1 = ((\<lambda>x. plusWeeks x 1) ^^ k) (plusWeeks w 1)"
  by (induction k) simp_all

lemma dailyColumns_eq:
  "dailyColumns fromISO s ps filteredTodos fwd i d
     = map (\<lambda>k. bracketColumn fromISO s ps filteredTodos
                  (if i + k = 0 then ''Tomorrow''
                   else formatWeekdayDayMonth (((\<lambda>x. plusDays x 1) ^^ k) d))
                  (((\<lambda>x. plusDays x 1) ^^ k) d)
                  (plusDays (((\<lambda>x. plusDays x 1) ^^ k) d) 1))
         (filter (\<lambda>k. showWeekEnds s
                       \<or> jsRem (weekday (((\<lambda>x. plusDays x 1) ^^ k) d) - fwd + 7) 7 + 1 < 6)
            [0..<6 - i])"
proof (induction "6 - i" arbitrary: i d)
  case 0
  then show ?case by (simp add: dailyColumns.simps [of _ _ _ _ _ i])
next
  case (Suc m)
  then have i: "i < 6" and m: "m = 6 - (i + 1)" by simp_all
  have up: "[0..<6 - i] = 0 # map Suc [0..<6 - (i + 1)]"
    using Suc.hyps(2) [symmetric] m by (simp only: upt_shift)
  show ?case
    unfolding up
    by (subst dailyColumns.simps)
       (simp add: i Let_def Suc.hyps(1) [OF m, simplified] filter_map comp_def
          funpow_plusDays_1 not_le)
qed

lemma weeklyColumns_eq:
  "weeklyColumns fromISO s ps filteredTodos i w
     = map (\<lambda>k. bracketColumn fromISO s ps filteredTodos
                  (if i + k = 0 then ''Next week''
                   else ''Week +'' @ showNat (i + k + 1) @ '' (''
                        @ formatDayMonth (((\<lambda>x. plusWeeks x 1) ^^ k) w) @ '' - ''
                        @ formatDayMonth
                            (plusDays (plusWeeks (((\<lambda>x. plusWeeks x 1) ^^ k) w) 1) (- 1))
                        @ '')'')
                  (((\<lambda>x. plusWeeks x 1) ^^ k) w)
                  (plusWeeks (((\<lambda>x. plusWeeks x 1) ^^ k) w) 1))
         [0..<4 - i]"
proof (induction "4 - i" arbitrary: i w)
  case 0
  then show ?case by (simp add: weeklyColumns.simps [of _ _ _ _ i])
next
  case (Suc m)
  then have i: "i < 4" and m: "m = 4 - (i + 1)" by simp_all
  have up: "[0..<4 - i] = 0 # map Suc [0..<4 - (i + 1)]"
    using Suc.hyps(2) [symmetric] m by (simp only: upt_shift)
  show ?case
    unfolding up
    by (subst weeklyColumns.simps)
       (simp add: i Let_def Suc.hyps(1) [OF m, simplified] comp_def funpow_plusWeeks_1)
qed

lemma monthlyColumns_eq:
  "monthlyColumns fromISO s ps filteredTodos i mo
     = (map (\<lambda>k. bracketColumn fromISO s ps filteredTodos
                  (if i + k = 0 then ''Next month''
                   else ''Month +'' @ showNat (i + k + 1) @ '' (''
                        @ formatDayMonth ((plusMonth ^^ k) mo) @ '' - ''
                        @ formatDayMonth (plusDays (plusMonth ((plusMonth ^^ k) mo)) (- 1))
                        @ '')'')
                  ((plusMonth ^^ k) mo)
                  (plusMonth ((plusMonth ^^ k) mo)))
         [0..<3 - i],
        (plusMonth ^^ (3 - i)) mo)"
proof (induction "3 - i" arbitrary: i mo)
  case 0
  then show ?case by (simp add: monthlyColumns.simps [of _ _ _ _ i])
next
  case (Suc m)
  then have i: "i < 3" and m: "m = 3 - (i + 1)" by simp_all
  have up: "[0..<3 - i] = 0 # map Suc [0..<3 - (i + 1)]"
    using Suc.hyps(2) [symmetric] m by (simp only: upt_shift)
  have fp: "(plusMonth ^^ (3 - i)) mo = (plusMonth ^^ (3 - (i + 1))) (plusMonth mo)"
    using Suc.hyps(2) [symmetric] m by (simp only: funpow_Suc_right comp_def)
  show ?case
    unfolding up fp
    by (subst monthlyColumns.simps)
       (simp add: i Let_def Suc.hyps(1) [OF m, simplified] comp_def funpow_swap1)
qed


section \<open>Commands on an unknown id\<close>

text \<open>
  Claim C4. A command invoked with an id that is not in the snapshot issues no mutation
  request and reports the id at warning level. Both move commands do so; \<open>removeDate\<close>
  issues no request either, but it writes nothing to the logger.
\<close>

theorem unknown_id_reporting:
  assumes "findTodo snapshot tid = None"
  shows "requests (moveToDate s snapshot target tid) = []
     \<and> Warn (notFoundMessage tid) \<in> set (logged (moveToDate s snapshot target tid))
     \<and> requests (moveToDateAndStatus s resolves now snapshot target st tid) = []
     \<and> Warn (notFoundMessage tid)
          \<in> set (logged (moveToDateAndStatus s resolves now snapshot target st tid))
     \<and> removeDate s snapshot tid = \<lparr>logged = [], requests = []\<rparr>"
  using assms by (simp add: moveToDate_def moveToDateAndStatus_def removeDate_def Let_def)

theorem unknown_id_reporting_witness:
  "findTodo [] ''x'' = None
   \<and> removeDate exampleSettings [] ''x'' = \<lparr>logged = [], requests = []\<rparr>
   \<and> Warn (notFoundMessage ''x'') \<in> set (logged (moveToDate exampleSettings [] (date 2024 6 10) ''x''))"
proof -
  have h: "findTodo [] ''x'' = None" by (simp add: findTodo_def)
  show ?thesis
    using h unknown_id_reporting [OF h, of exampleSettings "date 2024 6 10" "\<lambda>r. True"
        "date 2024 6 10" Todo]
    by simp
qed

section \<open>Moving a todo to a date and a status\<close>

text \<open>
  Claim C7. For a todo that is found, the requests issued are a prefix of: the due-date
  write, the status write, the started-date write (today's date), in this order. The second
  is issued exactly when the first has completed; the third exactly when the first two have
  completed, start times are tracked, the target status is \<open>InProgress\<close> and the todo has
  no started attribute yet.
\<close>

theorem moveToDateAndStatus_order:
  assumes "findTodo snapshot tid = Some found"
  shows
    "let todo = found\<lparr>status := st\<rparr>;
         first = UpdateAttribute todo (dueDateAttribute s) (toISODate target);
         second = UpdateTodoStatus todo (completedDateAttribute s);
         third = UpdateAttribute todo (startedAttribute s) (toISODate now)
     in \<exists>n. requests (moveToDateAndStatus s resolves now snapshot target st tid)
               = take n [first, second, third]
            \<and> 1 \<le> n \<and> n \<le> 3
            \<and> (2 \<le> n \<longleftrightarrow> resolves first)
            \<and> (n = 3 \<longleftrightarrow>
                  resolves first \<and> resolves second \<and> trackStartTime s \<and> st = InProgress
                  \<and> (\<exists>a. attributes found = Some a
                         \<and> \<not> truthy (map_of a (startedAttribute s))))"
proof -
  let ?todo = "found\<lparr>status := st\<rparr>"
  let ?first = "UpdateAttribute ?todo (dueDateAttribute s) (toISODate target)"
  let ?second = "UpdateTodoStatus ?todo (completedDateAttribute s)"
  let ?third = "UpdateAttribute ?todo (startedAttribute s) (toISODate now)"
  let ?cond = "trackStartTime s \<and> st = InProgress
      \<and> (\<exists>a. attributes found = Some a \<and> \<not> truthy (map_of a (startedAttribute s)))"
  let ?n = "if \<not> resolves ?first then 1 else if \<not> resolves ?second then 2
            else if ?cond then 3 else (2::nat)"
  have r: "requests (moveToDateAndStatus s resolves now snapshot target st tid)
             = take ?n [?first, ?second, ?third]"
    using assms
    by (cases "attributes found")
       (simp_all add: moveToDateAndStatus_def Let_def numeral_2_eq_2 numeral_3_eq_3)
  show ?thesis
    unfolding Let_def
    by (rule exI [of _ ?n]) (simp add: r)
qed

theorem moveToDateAndStatus_order_witness:
  "findTodo [exampleTodo ''a'' Todo []] ''a'' = Some (exampleTodo ''a'' Todo [])
   \<and> requests (moveToDateAndStatus exampleSettings (\<lambda>r. True) (date 2024 6 10)
                  [exampleTodo ''a'' Todo []] (date 2024 6 10) InProgress ''a'')
       = [UpdateAttribute (exampleTodo ''a'' InProgress []) ''due'' (toISODate (date 2024 6 10)),
          UpdateTodoStatus (exampleTodo ''a'' InProgress []) ''completed'',
          UpdateAttribute (exampleTodo ''a'' InProgress []) ''started''
            (toISODate (date 2024 6 10))]"
proof -
  have h: "findTodo [exampleTodo ''a'' Todo []] ''a'' = Some (exampleTodo ''a'' Todo [])"
    by (simp add: findTodo_def exampleTodo_def)
  have "\<exists>n. requests (moveToDateAndStatus exampleSettings (\<lambda>r. True) (date 2024 6 10)
                  [exampleTodo ''a'' Todo []] (date 2024 6 10) InProgress ''a'')
            = take n [UpdateAttribute (exampleTodo ''a'' InProgress []) ''due'' (toISODate (date 2024 6 10)),
                UpdateTodoStatus (exampleTodo ''a'' InProgress []) ''completed'',
                UpdateAttribute (exampleTodo ''a'' InProgress []) ''started''
                  (toISODate (date 2024 6 10))]
          \<and> n = 3"
    using moveToDateAndStatus_order [OF h, where s = exampleSettings and st = InProgress
        and resolves = "\<lambda>r. True" and now = "date 2024 6 10" and target = "date 2024 6 10"]
    by (simp add: Let_def exampleSettings_def exampleTodo_def)
  then show ?thesis using h by auto
qed

section \<open>What a column shows\<close>

lemma findTodoDate_no_attributes: "attributes t = None \<Longrightarrow> findTodoDate fromISO t a = None"
  by (simp add: findTodoDate_def)

lemma findTodoDate_Some_attributes: "findTodoDate fromISO t a = Some d \<Longrightarrow> attributes t \<noteq> None"
  by (cases "attributes t") (simp_all add: findTodoDate_def)

lemma in_getTodosByDate:
  "t \<in> set (getTodosByDate fromISO s ft fromD toD inc)
     \<longleftrightarrow> t \<in> set ft \<and> attributes t \<noteq> None \<and> todoInRange fromISO s fromD toD inc t"
  by (simp add: getTodosByDate_def)

lemma todoInRange_due_only:
  "todoInRange fromISO s fromD toD False t
     = dateIsInRange fromD toD (findTodoDate fromISO t (dueDateAttribute s))"
  by (simp add: todoInRange_def Let_def)

lemma in_getTodosByDate_due_only:
  "t \<in> set (getTodosByDate fromISO s ft fromD toD False)
     \<longleftrightarrow> t \<in> set ft
         \<and> dateIsInRange fromD toD (findTodoDate fromISO t (dueDateAttribute s))"
proof -
  have "dateIsInRange fromD toD (findTodoDate fromISO t (dueDateAttribute s))
          \<Longrightarrow> attributes t \<noteq> None"
    by (cases "findTodoDate fromISO t (dueDateAttribute s)")
       (auto simp add: dateIsInRange_def dest: findTodoDate_Some_attributes)
  then show ?thesis
    by (auto simp add: in_getTodosByDate todoInRange_due_only)
qed

lemma todos_bracketColumn:
  "todos (bracketColumn fromISO s ps ft l a b)
     = getTodosByDate fromISO s ft (Some a) (Some b) False"
  by (simp add: bracketColumn_def todoColumn_def Let_def)

lemma todos_laterColumn:
  "todos (laterColumn fromISO s ps ft a) = getTodosByDate fromISO s ft (Some a) None False"
  by (simp add: laterColumn_def todoColumn_def)

lemma todos_pastColumn:
  "todos (pastColumn fromISO s ft a)
     = filter (\<lambda>todo. status todo \<noteq> Canceled \<and> status todo \<noteq> Complete)
         (getTodosByDate fromISO s ft None (Some a) False)"
  by (simp add: pastColumn_def todoColumn_def)

lemma todos_backlogColumn:
  "todos (backlogColumn fromISO s ft) = getTodosWithNoDate fromISO s ft"
  by (simp add: backlogColumn_def todoColumn_def)

lemma dailyColumns_brackets:
  "c \<in> set (dailyColumns fromISO s ps ft fwd i d)
     \<Longrightarrow> \<exists>l a b. c = bracketColumn fromISO s ps ft l a b"
  by (subst (asm) dailyColumns_eq) auto

lemma weeklyColumns_brackets:
  "c \<in> set (weeklyColumns fromISO s ps ft i w)
     \<Longrightarrow> \<exists>l a b. c = bracketColumn fromISO s ps ft l a b"
  by (subst (asm) weeklyColumns_eq) auto

lemma monthlyColumns_brackets:
  "c \<in> set (fst (monthlyColumns fromISO s ps ft i mo))
     \<Longrightarrow> \<exists>l a b. c = bracketColumn fromISO s ps ft l a b"
  by (subst (asm) monthlyColumns_eq) auto

lemma drop_2_getColumns:
  "drop 2 (getColumns fromISO s ps ft now)
     = dailyColumns fromISO s ps ft (case firstWeekday s of None \<Rightarrow> 1 | Some w \<Rightarrow> w) 0
         (plusDays (startOfDay now) 1)
       @ weeklyColumns fromISO s ps ft 0
           (firstWeekStart (startOfDay now) (case firstWeekday s of None \<Rightarrow> 1 | Some w \<Rightarrow> w))
       @ fst (monthlyColumns fromISO s ps ft 0 (plusMonth (startOfMonth (startOfDay now))))
       @ [laterColumn fromISO s ps ft
            (snd (monthlyColumns fromISO s ps ft 0 (plusMonth (startOfMonth (startOfDay now)))))]"
  by (simp add: getColumns_def Let_def numeral_2_eq_2)

lemma take_2_getColumns:
  "take 2 (getColumns fromISO s ps ft now)
     = [backlogColumn fromISO s ft, pastColumn fromISO s ft (startOfDay now)]"
  by (simp add: getColumns_def Let_def numeral_2_eq_2)

lemma dated_columns_cases:
  assumes "c \<in> set (drop 2 (getColumns fromISO s ps ft now))"
  shows "(\<exists>l a b. c = bracketColumn fromISO s ps ft l a b)
         \<or> (\<exists>a. c = laterColumn fromISO s ps ft a)"
  using assms unfolding drop_2_getColumns
  by (auto dest: dailyColumns_brackets weeklyColumns_brackets monthlyColumns_brackets)

lemma dated_columns_query:
  assumes "c \<in> set (drop 2 (getColumns fromISO s ps ft now))"
  shows "\<exists>a b. todos c = getTodosByDate fromISO s ft (Some a) b False"
proof -
  from dated_columns_cases [OF assms] consider
    l a b where "c = bracketColumn fromISO s ps ft l a b"
    | a where "c = laterColumn fromISO s ps ft a"
    by blast
  then show ?thesis
  proof cases
    case 1
    then have "todos c = getTodosByDate fromISO s ft (Some a) (Some b) False"
      by (simp add: todos_bracketColumn)
    then show ?thesis by blast
  next
    case 2
    then have "todos c = getTodosByDate fromISO s ft (Some a) None False"
      by (simp add: todos_laterColumn)
    then show ?thesis by blast
  qed
qed

lemma in_getColumns_split:
  "c \<in> set (getColumns fromISO s ps ft now)
     \<longleftrightarrow> c = backlogColumn fromISO s ft \<or> c = pastColumn fromISO s ft (startOfDay now)
         \<or> c \<in> set (drop 2 (getColumns fromISO s ps ft now))"
proof -
  have "set (getColumns fromISO s ps ft now)
          = set (take 2 (getColumns fromISO s ps ft now))
            \<union> set (drop 2 (getColumns fromISO s ps ft now))"
    by (metis append_take_drop_id set_append)
  then show ?thesis by (auto simp add: take_2_getColumns)
qed

lemma no_attributes_not_queried:
  "attributes t = None \<Longrightarrow> t \<notin> set (getTodosByDate fromISO s ft fromD toD inc)"
  by (simp add: in_getTodosByDate)

lemma no_attributes_not_backlog:
  "attributes t = None \<Longrightarrow> t \<notin> set (getTodosWithNoDate fromISO s ft)"
  by (simp add: getTodosWithNoDate_def)

lemma isoCalendarDate_2024_06_01: "isoCalendarDate ''2024-06-01'' = Some (date 2024 6 1)"
  by code_simp

lemma june_order:
  "valueOf (date 2024 6 1) < valueOf (date 2024 6 10)"
  "valueOf (date 2024 6 10) < valueOf (date 2024 6 11)"
  using toDays_same_month [of 2024 6 10 1] toDays_same_month [of 2024 6 11 10]
  by (simp_all add: valueOf_date)

lemma last_getColumns:
  "last (getColumns fromISO s ps ft now)
     = laterColumn fromISO s ps ft
         ((plusMonth ^^ 3) (plusMonth (startOfMonth (startOfDay now))))"
  by (simp add: getColumns_def Let_def monthlyColumns_eq)

lemma later_start_example:
  "(plusMonth ^^ 3) (plusMonth (startOfMonth (startOfDay (date 2024 6 10)))) = date 2024 10 1"
  by (simp add: numeral_3_eq_3 plusMonth_def startOfMonth_def startOfDay_def date_def
        daysInMonth_def Let_def)

section \<open>Todos without an attribute mapping\<close>

text \<open>
  Claim C10. A todo whose attribute mapping is absent appears in no column at all: every
  date-range query leaves it out, and so does the Backlog query, although the todo has no
  due date and may be open.
\<close>

theorem no_attributes_no_column:
  assumes "attributes t = None"
  shows "t \<notin> set (getTodosByDate fromISO s ft fromD toD inc)
     \<and> t \<notin> set (getTodosWithNoDate fromISO s ft)
     \<and> (\<forall>c \<in> set (getColumns fromISO s ps ft now). t \<notin> set (todos c))
     \<and> (\<forall>c \<in> set (getTodayColumns fromISO s ft now). t \<notin> set (todos c))"
proof -
  have q: "t \<notin> set (getTodosByDate fromISO s ft a b i)" for a b i
    using assms by (rule no_attributes_not_queried)
  have cols: "t \<notin> set (todos c)" if "c \<in> set (getColumns fromISO s ps ft now)" for c
  proof -
    from that consider "c = backlogColumn fromISO s ft"
      | "c = pastColumn fromISO s ft (startOfDay now)"
      | "c \<in> set (drop 2 (getColumns fromISO s ps ft now))"
      unfolding in_getColumns_split by blast
    then show ?thesis
    proof cases
      case 1
      then show ?thesis using no_attributes_not_backlog [OF assms]
        by (simp add: todos_backlogColumn)
    next
      case 2
      then show ?thesis using q by (simp add: todos_pastColumn)
    next
      case 3
      from dated_columns_query [OF 3] q show ?thesis by auto
    qed
  qed
  have today: "t \<notin> set (todos c)" if "c \<in> set (getTodayColumns fromISO s ft now)" for c
    using that q
    by (auto simp add: getTodayColumns_def Let_def todoColumn_def getTodosByDateAndStatus_def)
  show ?thesis
    using q no_attributes_not_backlog [OF assms] cols today by blast
qed

theorem no_attributes_no_column_witness:
  "attributes \<lparr>todoId = ''a'', status = Todo, attributes = None\<rparr> = None
   \<and> \<lparr>todoId = ''a'', status = Todo, attributes = None\<rparr>
       \<notin> set (getTodosWithNoDate isoCalendarDate exampleSettings
                [\<lparr>todoId = ''a'', status = Todo, attributes = None\<rparr>])
   \<and> \<lparr>todoId = ''a'', status = Todo, attributes = None\<rparr>
       \<notin> set (todos (hd (getColumns isoCalendarDate exampleSettings examplePlanning
                [\<lparr>todoId = ''a'', status = Todo, attributes = None\<rparr>] (date 2024 6 10))))
   \<and> \<lparr>todoId = ''a'', status = Todo, attributes = None\<rparr>
       \<notin> set (todos (last (getColumns isoCalendarDate exampleSettings examplePlanning
                [\<lparr>todoId = ''a'', status = Todo, attributes = None\<rparr>] (date 2024 6 10))))"
proof -
  let ?t = "\<lparr>todoId = ''a'', status = Todo, attributes = None\<rparr>"
  let ?cols = "getColumns isoCalendarDate exampleSettings examplePlanning [?t] (date 2024 6 10)"
  have h: "attributes ?t = None" by simp
  have ne: "?cols \<noteq> []" by (simp add: getColumns_def Let_def)
  then have m: "hd ?cols \<in> set ?cols" "last ?cols \<in> set ?cols" by simp_all
  show ?thesis
    using h m no_attributes_no_column [OF h, of isoCalendarDate exampleSettings
        "[?t]" None None False examplePlanning "date 2024 6 10"]
    by blast
qed

section \<open>Which columns apply the selection rule\<close>

text \<open>
  Claim C3 as stated, that the daily, weekly, monthly and Later columns query with
  \<open>includeSelected = true\<close>, fails: for a selected open todo without a due date the
  Later column (dropping on it moves to 2024-10-01) is empty, while the query of its range
  with \<open>includeSelected = true\<close> returns the todo.
\<close>

theorem later_ignores_selected_counterexample:
  "onTodoDropped (last (getColumns isoCalendarDate exampleSettings examplePlanning
       [exampleTodo ''p'' Todo [(''selected'', Flag True)]] (date 2024 6 10)))
     = Some (MoveToDate (date 2024 10 1))
   \<and> todos (last (getColumns isoCalendarDate exampleSettings examplePlanning
       [exampleTodo ''p'' Todo [(''selected'', Flag True)]] (date 2024 6 10))) = []
   \<and> getTodosByDate isoCalendarDate exampleSettings
       [exampleTodo ''p'' Todo [(''selected'', Flag True)]] (Some (date 2024 10 1)) None True
     = [exampleTodo ''p'' Todo [(''selected'', Flag True)]]"
proof -
  let ?p = "exampleTodo ''p'' Todo [(''selected'', Flag True)]"
  have d: "findTodoDate isoCalendarDate ?p (dueDateAttribute exampleSettings) = None"
    by (simp add: findTodoDate_def exampleSettings_def exampleTodo_def)
  have a: "attributes ?p \<noteq> None" by (simp add: exampleTodo_def)
  have f: "\<not> todoInRange isoCalendarDate exampleSettings (Some (date 2024 10 1)) None False ?p"
    by (simp add: todoInRange_due_only d dateIsInRange_def)
  have t: "todoInRange isoCalendarDate exampleSettings (Some (date 2024 10 1)) None True ?p"
    by (simp add: todoInRange_def Let_def exampleSettings_def exampleTodo_def)
  show ?thesis
    using a f t
    by (simp add: last_getColumns later_start_example laterColumn_def todoColumn_def
          getTodosByDate_def)
qed

text \<open>
  Claim C3, amended. Every daily, weekly, monthly and Later column queries its todos
  without the third argument, that is with \<open>includeSelected = false\<close>: it shows filtered
  todos whose due date is in its range, so every todo it shows has a due date. Only the
  columns of the Today group query with \<open>includeSelected = true\<close>.
\<close>

theorem dated_columns_ignore_selection:
  "(\<forall>c \<in> set (drop 2 (getColumns fromISO s ps ft now)).
      (\<exists>a b. todos c = getTodosByDate fromISO s ft (Some a) b False)
      \<and> (\<forall>t \<in> set (todos c).
            t \<in> set ft \<and> findTodoDate fromISO t (dueDateAttribute s) \<noteq> None))
   \<and> (\<forall>c \<in> set (getTodayColumns fromISO s ft now).
        \<exists>sts. todos c
          = filter (\<lambda>t. List.member sts (status t))
              (getTodosByDate fromISO s ft (Some (startOfDay now))
                 (Some (plusDays (startOfDay now) 1)) True))"
proof -
  have dated: "(\<exists>a b. todos c = getTodosByDate fromISO s ft (Some a) b False)
      \<and> (\<forall>t \<in> set (todos c).
            t \<in> set ft \<and> findTodoDate fromISO t (dueDateAttribute s) \<noteq> None)"
    if c: "c \<in> set (drop 2 (getColumns fromISO s ps ft now))" for c
  proof -
    from dated_columns_query [OF c] obtain a b
      where q: "todos c = getTodosByDate fromISO s ft (Some a) b False" by blast
    have "t \<in> set ft \<and> findTodoDate fromISO t (dueDateAttribute s) \<noteq> None"
      if "t \<in> set (todos c)" for t
      using that unfolding q in_getTodosByDate_due_only
      by (cases "findTodoDate fromISO t (dueDateAttribute s)")
         (simp_all add: dateIsInRange_def)
    with q show ?thesis by blast
  qed
  have today: "\<exists>sts. todos c
          = filter (\<lambda>t. List.member sts (status t))
              (getTodosByDate fromISO s ft (Some (startOfDay now))
                 (Some (plusDays (startOfDay now) 1)) True)"
    if "c \<in> set (getTodayColumns fromISO s ft now)" for c
  proof -
    from that consider
      "todos c = getTodosByDateAndStatus fromISO s ft (startOfDay now)
                   (plusDays (startOfDay now) 1) [Todo]"
      | "todos c = getTodosByDateAndStatus fromISO s ft (startOfDay now)
                   (plusDays (startOfDay now) 1) [AttentionRequired, Delegated, InProgress]"
      | "todos c = getTodosByDateAndStatus fromISO s ft (startOfDay now)
                   (plusDays (startOfDay now) 1) [Canceled, Complete]"
      by (auto simp add: getTodayColumns_def Let_def todoColumn_def)
    then show ?thesis
      unfolding getTodosByDateAndStatus_def by cases blast+
  qed
  show ?thesis using dated today by blast
qed

theorem dated_columns_ignore_selection_witness:
  "last (getColumns isoCalendarDate exampleSettings examplePlanning
        [exampleTodo ''p'' Todo [(''selected'', Flag True)]] (date 2024 6 10))
       \<in> set (drop 2 (getColumns isoCalendarDate exampleSettings examplePlanning
        [exampleTodo ''p'' Todo [(''selected'', Flag True)]] (date 2024 6 10)))
   \<and> findTodoDate isoCalendarDate (exampleTodo ''p'' Todo [(''selected'', Flag True)])
         (dueDateAttribute exampleSettings) = None
   \<and> exampleTodo ''p'' Todo [(''selected'', Flag True)]
       \<notin> set (todos (last (getColumns isoCalendarDate exampleSettings examplePlanning
        [exampleTodo ''p'' Todo [(''selected'', Flag True)]] (date 2024 6 10))))"
proof -
  let ?p = "exampleTodo ''p'' Todo [(''selected'', Flag True)]"
  let ?cols = "getColumns isoCalendarDate exampleSettings examplePlanning [?p] (date 2024 6 10)"
  have l: "last ?cols \<in> set (drop 2 ?cols)"
    unfolding drop_2_getColumns by (simp add: getColumns_def Let_def)
  have d: "findTodoDate isoCalendarDate ?p (dueDateAttribute exampleSettings) = None"
    by (simp add: findTodoDate_def exampleSettings_def exampleTodo_def)
  show ?thesis
    using l d dated_columns_ignore_selection [of isoCalendarDate exampleSettings examplePlanning
        "[?p]" "date 2024 6 10"]
    by blast
qed

section \<open>The daily brackets\<close>

lemma jsRem_nonneg: "0 \<le> a \<Longrightarrow> 0 < b \<Longrightarrow> jsRem a b = a mod b"
  by (cases "a = 0") (simp_all add: jsRem_def)

lemma funpow_plusDays_props:
  assumes "validDate d"
  shows "validDate (((\<lambda>x. plusDays x 1) ^^ k) d)"
    "toDays (((\<lambda>x. plusDays x 1) ^^ k) d) = toDays d + int k"
    "millis (((\<lambda>x. plusDays x 1) ^^ k) d) = millis d"
proof -
  have "validDate (((\<lambda>x. plusDays x 1) ^^ k) d)
        \<and> toDays (((\<lambda>x. plusDays x 1) ^^ k) d) = toDays d + int k
        \<and> millis (((\<lambda>x. plusDays x 1) ^^ k) d) = millis d"
    using assms by (induction k) (simp_all add: plusDays_props)
  then show "validDate (((\<lambda>x. plusDays x 1) ^^ k) d)"
    "toDays (((\<lambda>x. plusDays x 1) ^^ k) d) = toDays d + int k"
    "millis (((\<lambda>x. plusDays x 1) ^^ k) d) = millis d"
    by simp_all
qed

lemma localDay_shift:
  fixes x fwd :: int
  assumes "1 \<le> fwd" "fwd \<le> 7"
  shows "jsRem ((x + int k) mod 7 + 1 - fwd + 7) 7 + 1 = ((x + 8 - fwd) mod 7 + int k) mod 7 + 1"
proof -
  have "0 \<le> (x + int k) mod 7" by simp
  then have nn: "0 \<le> (x + int k) mod 7 + 1 - fwd + 7" using assms by linarith
  have "((x + int k) mod 7 + 1 - fwd + 7) mod 7 = ((x + int k) mod 7 + (8 - fwd)) mod 7"
    by (simp add: algebra_simps)
  also have "\<dots> = ((x + int k) + (8 - fwd)) mod 7"
    by (simp only: mod_add_left_eq)
  also have "\<dots> = ((x + 8 - fwd) + int k) mod 7"
    by (simp add: algebra_simps)
  also have "\<dots> = ((x + 8 - fwd) mod 7 + int k) mod 7"
    by (simp only: mod_add_left_eq)
  finally show ?thesis using nn by (simp add: jsRem_nonneg)
qed

lemma six_days_weekends:
  fixes y :: int
  assumes "0 \<le> y" "y < 7"
  shows "length (filter (\<lambda>k. (y + int k) mod 7 + 1 < 6) [0..<6]) = 4
       \<or> length (filter (\<lambda>k. (y + int k) mod 7 + 1 < 6) [0..<6]) = 5"
proof -
  have u: "[0..<6] = [0, 1, 2, 3, 4, 5::nat]"
    by (simp add: upt_rec)
  from assms consider "y = 0" | "y = 1" | "y = 2" | "y = 3" | "y = 4" | "y = 5" | "y = 6"
    by linarith
  then show ?thesis
    by cases (simp_all add: u)
qed

lemma daily_titles_example:
  "map title (dailyColumns isoCalendarDate (exampleSettings\<lparr>showWeekEnds := False\<rparr>)
      examplePlanning [] 1 0 (plusDays (startOfDay (date 2024 6 10)) 1))
   = [''Tomorrow'', ''Wednesday 12/06'', ''Thursday 13/06'', ''Friday 14/06'']"
  by code_simp

lemma title_bracketColumn: "title (bracketColumn fromISO s ps ft l a b) = l"
  by (simp add: bracketColumn_def todoColumn_def Let_def)

lemma first_weekly_title:
  "map title (weeklyColumns fromISO s ps ft 0 w) ! 0 = ''Next week''"
  by (simp add: weeklyColumns_eq title_bracketColumn upt_rec [of 0 4])

lemma plusDays_1: "plusDays x 1 = plusDay x"
  by (simp add: plusDays_def)

lemma funpow_plusDays_int: "((\<lambda>x. plusDays x 1) ^^ k) d = plusDays d (int k)"
  by (simp add: plusDays_1 plusDays_def)

lemma plusDays_succ: "plusDays (plusDays d (int k)) 1 = plusDays d (int k + 1)"
  by (simp add: plusDays_def nat_add_distrib)

lemma dailyColumns_window:
  "dailyColumns fromISO s ps ft fwd 0 d
     = map (\<lambda>k. bracketColumn fromISO s ps ft
                  (if k = 0 then ''Tomorrow'' else formatWeekdayDayMonth (plusDays d (int k)))
                  (plusDays d (int k)) (plusDays d (int k + 1)))
         (filter (\<lambda>k. showWeekEnds s
                       \<or> jsRem (weekday (plusDays d (int k)) - fwd + 7) 7 + 1 < 6)
            [0..<6])"
  by (simp add: dailyColumns_eq funpow_plusDays_int plusDays_succ)

lemma weekday_plusDays:
  "validDate d \<Longrightarrow> weekday (plusDays d (int k)) = (toDays d + int k) mod 7 + 1"
  by (simp add: weekday_def plusDays_props)

lemma validDate_date:
  "validDate (date y m d) \<longleftrightarrow> 1 \<le> m \<and> m \<le> 12 \<and> 1 \<le> d \<and> d \<le> daysInMonth y m"
  by (simp add: validDate_def date_def)

lemma tuesday_example: "jsRem (weekday (date 2024 6 11) - 1 + 7) 7 + 1 = 2"
  by code_simp

text \<open>
  Claim C2 as stated, that six daily buckets are emitted when week-ends are hidden, fails:
  on Monday 2024-06-10 with Monday as first weekday the daily buckets are Tuesday to Friday,
  four of them, and the next column is already the first weekly one.
\<close>

theorem weekend_days_count_counterexample:
  "take 5 (map title (drop 2 (getColumns isoCalendarDate
       (exampleSettings\<lparr>showWeekEnds := False\<rparr>) examplePlanning [] (date 2024 6 10))))
   = [''Tomorrow'', ''Wednesday 12/06'', ''Thursday 13/06'', ''Friday 14/06'', ''Next week'']"
proof -
  have fw: "(case firstWeekday (exampleSettings\<lparr>showWeekEnds := False\<rparr>) of
               None \<Rightarrow> 1 | Some w \<Rightarrow> w) = 1"
    by (simp add: exampleSettings_def)
  have len: "length (dailyColumns isoCalendarDate (exampleSettings\<lparr>showWeekEnds := False\<rparr>)
      examplePlanning [] 1 0 (plusDays (startOfDay (date 2024 6 10)) 1)) = 4"
    using arg_cong [OF daily_titles_example, of length] by simp
  have wl: "length (weeklyColumns isoCalendarDate
      (exampleSettings\<lparr>showWeekEnds := False\<rparr>) examplePlanning [] 0 w) = 4" for w
    by (simp add: weeklyColumns_eq)
  have wk: "take (Suc 0) (map title (weeklyColumns isoCalendarDate
      (exampleSettings\<lparr>showWeekEnds := False\<rparr>) examplePlanning [] 0 w)) = [''Next week'']"
    for w
    by (simp add: weeklyColumns_eq title_bracketColumn upt_rec [of 0 4])
  show ?thesis
    unfolding drop_2_getColumns fw
    by (simp add: len daily_titles_example wk wl del: take_map)
qed

text \<open>
  Claim C2, amended. The daily loop walks exactly six consecutive days from tomorrow on. A
  day that is shown gets one bucket, for that day alone, labelled Tomorrow when it is the
  first day walked and with its weekday and date otherwise. When week-ends are hidden, a
  day whose local weekday index is 6 or 7 gets no bucket but still counts as one of the
  six: six buckets are emitted when week-ends are shown, and four or five when they are
  hidden (first weekday between 1 and 7). Whenever tomorrow is shown, the first bucket is
  labelled Tomorrow.
\<close>

theorem daily_window:
  assumes "validDate d" "1 \<le> fwd" "fwd \<le> 7"
  shows
    "dailyColumns fromISO s ps ft fwd 0 d
       = map (\<lambda>k. bracketColumn fromISO s ps ft
                    (if k = 0 then ''Tomorrow'' else formatWeekdayDayMonth (plusDays d (int k)))
                    (plusDays d (int k)) (plusDays d (int k + 1)))
           (filter (\<lambda>k. showWeekEnds s
                         \<or> jsRem (weekday (plusDays d (int k)) - fwd + 7) 7 + 1 < 6)
              [0..<6])
     \<and> (showWeekEnds s \<longrightarrow> length (dailyColumns fromISO s ps ft fwd 0 d) = 6)
     \<and> (\<not> showWeekEnds s \<longrightarrow>
           length (dailyColumns fromISO s ps ft fwd 0 d) = 4
           \<or> length (dailyColumns fromISO s ps ft fwd 0 d) = 5)
     \<and> (showWeekEnds s \<or> jsRem (weekday d - fwd + 7) 7 + 1 < 6 \<longrightarrow>
           title (hd (dailyColumns fromISO s ps ft fwd 0 d)) = ''Tomorrow'')"
proof -
  let ?emit = "\<lambda>k. showWeekEnds s \<or> jsRem (weekday (plusDays d (int k)) - fwd + 7) 7 + 1 < 6"
  have len: "length (dailyColumns fromISO s ps ft fwd 0 d) = length (filter ?emit [0..<6])"
    by (simp add: dailyColumns_window)
  have all: "length (dailyColumns fromISO s ps ft fwd 0 d) = 6" if "showWeekEnds s"
    using that by (simp add: len)
  have some: "length (dailyColumns fromISO s ps ft fwd 0 d) = 4
           \<or> length (dailyColumns fromISO s ps ft fwd 0 d) = 5" if "\<not> showWeekEnds s"
  proof -
    let ?y = "(toDays d + 8 - fwd) mod 7"
    have "?emit k = ((?y + int k) mod 7 + 1 < 6)" for k
      using that
      by (simp only: weekday_plusDays [OF assms(1)] localDay_shift [OF assms(2,3)] simp_thms)
    then have "?emit = (\<lambda>k. (?y + int k) mod 7 + 1 < 6)"
      by (rule ext)
    moreover have "0 \<le> ?y" "?y < 7" by simp_all
    ultimately show ?thesis
      using six_days_weekends [of ?y] by (simp only: len)
  qed
  have first: "title (hd (dailyColumns fromISO s ps ft fwd 0 d)) = ''Tomorrow''"
    if "showWeekEnds s \<or> jsRem (weekday d - fwd + 7) 7 + 1 < 6"
  proof -
    have "plusDays d (int 0) = d" by (simp add: plusDays_def)
    then have "?emit 0" using that by simp
    then show ?thesis
      by (simp add: dailyColumns_window upt_rec [of 0 6] title_bracketColumn)
  qed
  show ?thesis
    using all some first by (simp only: dailyColumns_window [symmetric]) blast
qed

theorem daily_window_witness:
  "validDate (date 2024 6 11) \<and> (1::int) \<le> 1 \<and> (1::int) \<le> 7
   \<and> (length (dailyColumns isoCalendarDate (exampleSettings\<lparr>showWeekEnds := False\<rparr>)
                 examplePlanning [] 1 0 (date 2024 6 11)) = 4
        \<or> length (dailyColumns isoCalendarDate (exampleSettings\<lparr>showWeekEnds := False\<rparr>)
                 examplePlanning [] 1 0 (date 2024 6 11)) = 5)
   \<and> title (hd (dailyColumns isoCalendarDate (exampleSettings\<lparr>showWeekEnds := False\<rparr>)
                 examplePlanning [] 1 0 (date 2024 6 11))) = ''Tomorrow''"
proof -
  have v: "validDate (date 2024 6 11)"
    by (simp add: validDate_date daysInMonth_def)
  have h: "(1::int) \<le> 1" "(1::int) \<le> 7" by simp_all
  have w: "\<not> showWeekEnds (exampleSettings\<lparr>showWeekEnds := False\<rparr>)" by simp
  have e: "jsRem (weekday (date 2024 6 11) - 1 + 7) 7 + 1 < 6"
    by (simp only: tuesday_example)
  from daily_window [OF v h, of isoCalendarDate "exampleSettings\<lparr>showWeekEnds := False\<rparr>"
        examplePlanning "[]"] w e
  have "(length (dailyColumns isoCalendarDate (exampleSettings\<lparr>showWeekEnds := False\<rparr>)
                 examplePlanning [] 1 0 (date 2024 6 11)) = 4
        \<or> length (dailyColumns isoCalendarDate (exampleSettings\<lparr>showWeekEnds := False\<rparr>)
                 examplePlanning [] 1 0 (date 2024 6 11)) = 5)
   \<and> title (hd (dailyColumns isoCalendarDate (exampleSettings\<lparr>showWeekEnds := False\<rparr>)
                 examplePlanning [] 1 0 (date 2024 6 11))) = ''Tomorrow''"
    by blast
  with v h show ?thesis by blast
qed

section \<open>The ranges of the main sequence\<close>























lemma startOfDay_date: "startOfDay (date y m d) = date y m d"
  by (simp add: startOfDay_def date_def)



lemma example_parse:
  "isoCalendarDate ''2024-06-10'' = Some (date 2024 6 10)"
  "isoCalendarDate ''2024-12-30'' = Some (date 2024 12 30)"
  by code_simp+


















section \<open>The selection rule\<close>

text \<open>
  Claim C5 says in particular that a done, selected todo whose completed date lies outside
  the range does not qualify. That clause forgets the due date: a todo that is Complete,
  selected, completed on 2024-06-01 and due on 2024-06-10 is returned by the query for
  2024-06-10 with \<open>includeSelected = true\<close>, by its due date, and the Today group shows
  it in its Done column.
\<close>

theorem done_selected_due_today_counterexample:
  "status (exampleTodo ''q'' Complete
       [(''selected'', Flag True), (''completed'', Text ''2024-06-01''),
        (''due'', Text ''2024-06-10'')]) = Complete
   \<and> spec_selected exampleSettings (exampleTodo ''q'' Complete
       [(''selected'', Flag True), (''completed'', Text ''2024-06-01''),
        (''due'', Text ''2024-06-10'')])
   \<and> findTodoDate isoCalendarDate (exampleTodo ''q'' Complete
       [(''selected'', Flag True), (''completed'', Text ''2024-06-01''),
        (''due'', Text ''2024-06-10'')]) (completedDateAttribute exampleSettings)
     = Some (date 2024 6 1)
   \<and> \<not> dateIsInRange (Some (date 2024 6 10)) (Some (plusDays (date 2024 6 10) 1))
         (Some (date 2024 6 1))
   \<and> exampleTodo ''q'' Complete
       [(''selected'', Flag True), (''completed'', Text ''2024-06-01''),
        (''due'', Text ''2024-06-10'')]
     \<in> set (getTodosByDate isoCalendarDate exampleSettings
              [exampleTodo ''q'' Complete
                 [(''selected'', Flag True), (''completed'', Text ''2024-06-01''),
                  (''due'', Text ''2024-06-10'')]]
              (Some (date 2024 6 10)) (Some (plusDays (date 2024 6 10) 1)) True)
   \<and> exampleTodo ''q'' Complete
       [(''selected'', Flag True), (''completed'', Text ''2024-06-01''),
        (''due'', Text ''2024-06-10'')]
     \<in> set (todos (getTodayColumns isoCalendarDate exampleSettings
              [exampleTodo ''q'' Complete
                 [(''selected'', Flag True), (''completed'', Text ''2024-06-01''),
                  (''due'', Text ''2024-06-10'')]]
              (date 2024 6 10) ! 2))"
proof -
  let ?q = "exampleTodo ''q'' Complete
       [(''selected'', Flag True), (''completed'', Text ''2024-06-01''),
        (''due'', Text ''2024-06-10'')]"
  let ?from = "date 2024 6 10" and ?to = "plusDays (date 2024 6 10) 1"
  have v: "validDate ?from" by (simp add: validDate_date daysInMonth_def)
  have e: "valueOf ?to = valueOf ?from + 86400000" by (simp add: valueOf_plusDays [OF v])
  have st: "status ?q = Complete" by (simp add: exampleTodo_def)
  have sel: "spec_selected exampleSettings ?q"
    by (simp add: spec_selected_def exampleSettings_def exampleTodo_def)
  have comp: "findTodoDate isoCalendarDate ?q (completedDateAttribute exampleSettings)
                = Some (date 2024 6 1)"
    by (simp add: findTodoDate_def exampleSettings_def exampleTodo_def
          isoCalendarDate_2024_06_01)
  have due: "findTodoDate isoCalendarDate ?q (dueDateAttribute exampleSettings)
               = Some (date 2024 6 10)"
    by (simp add: findTodoDate_def exampleSettings_def exampleTodo_def example_parse)
  have out: "\<not> dateIsInRange (Some ?from) (Some ?to) (Some (date 2024 6 1))"
    using june_order(1) by (simp add: dateIsInRange_def)
  have inr: "dateIsInRange (Some ?from) (Some ?to) (Some (date 2024 6 10))"
    by (simp add: dateIsInRange_def e)
  have a: "attributes ?q \<noteq> None" by (simp add: exampleTodo_def)
  have tr: "todoInRange isoCalendarDate exampleSettings (Some ?from) (Some ?to) True ?q"
    using inr by (simp add: todoInRange_def Let_def due)
  have q: "?q \<in> set (getTodosByDate isoCalendarDate exampleSettings [?q]
                         (Some ?from) (Some ?to) True)"
    using a tr by (simp add: in_getTodosByDate)
  have today: "?q \<in> set (todos (getTodayColumns isoCalendarDate exampleSettings [?q]
                                   (date 2024 6 10) ! 2))"
    using q st
    by (simp add: getTodayColumns_def Let_def todoColumn_def getTodosByDateAndStatus_def
          startOfDay_date)
  show ?thesis
    by (intro conjI) (fact st sel comp out q today)+
qed

text \<open>
  Claim C5, amended. A date-range query with \<open>includeSelected = true\<close> returns a todo of
  the filtered list exactly when its due date is in range, or it carries the selected
  marker and is either open, or done with its completed date in range. In particular a
  done, selected todo with neither its completed date nor its due date in range is left
  out, and an open, selected todo is shown in the Today group's Todo or In-progress column
  whatever its due date.
\<close>

theorem selection_rule:
  "(todo \<in> set (getTodosByDate fromISO s ft fromD toD True)
      \<longleftrightarrow> todo \<in> set ft
          \<and> (dateIsInRange fromD toD (findTodoDate fromISO todo (dueDateAttribute s))
              \<or> spec_selected s todo
                 \<and> (spec_open (status todo)
                     \<or> (status todo = Complete \<or> status todo = Canceled)
                        \<and> dateIsInRange fromD toD
                             (findTodoDate fromISO todo (completedDateAttribute s)))))
   \<and> ((status todo = Complete \<or> status todo = Canceled) \<and> spec_selected s todo
          \<and> \<not> dateIsInRange fromD toD (findTodoDate fromISO todo (completedDateAttribute s))
          \<and> \<not> dateIsInRange fromD toD (findTodoDate fromISO todo (dueDateAttribute s))
        \<longrightarrow> todo \<notin> set (getTodosByDate fromISO s ft fromD toD True))
   \<and> (todo \<in> set ft \<and> spec_selected s todo \<and> spec_open (status todo)
        \<longrightarrow> todo \<in> set (todos (getTodayColumns fromISO s ft now ! 0))
            \<or> todo \<in> set (todos (getTodayColumns fromISO s ft now ! 1)))"
proof -
  have sel: "spec_selected s todo \<Longrightarrow> attributes todo \<noteq> None"
    by (cases "attributes todo") (simp_all add: spec_selected_def)
  have due: "dateIsInRange fromD toD (findTodoDate fromISO todo a) \<Longrightarrow> attributes todo \<noteq> None"
    for a fromD toD
    by (cases "findTodoDate fromISO todo a")
       (auto simp add: dateIsInRange_def dest: findTodoDate_Some_attributes)
  have op: "spec_open (status todo) = (\<not> (status todo = Complete \<or> status todo = Canceled))"
    by (cases "status todo") simp_all
  have main: "todo \<in> set (getTodosByDate fromISO s ft fromD toD True)
      \<longleftrightarrow> todo \<in> set ft
          \<and> (dateIsInRange fromD toD (findTodoDate fromISO todo (dueDateAttribute s))
              \<or> spec_selected s todo
                 \<and> (spec_open (status todo)
                     \<or> (status todo = Complete \<or> status todo = Canceled)
                        \<and> dateIsInRange fromD toD
                             (findTodoDate fromISO todo (completedDateAttribute s))))"
    for fromD toD
    using sel due [of fromD toD "dueDateAttribute s"]
    by (auto simp add: in_getTodosByDate todoInRange_def Let_def op spec_selected_def)
  have today: "todo \<in> set (todos (getTodayColumns fromISO s ft now ! 0))
            \<or> todo \<in> set (todos (getTodayColumns fromISO s ft now ! 1))"
    if "todo \<in> set ft" "spec_selected s todo" "spec_open (status todo)"
  proof -
    have q: "todo \<in> set (getTodosByDate fromISO s ft (Some (startOfDay now))
                (Some (plusDays (startOfDay now) 1)) True)"
      using that by (simp add: main)
    show ?thesis
      using q that(3)
      by (cases "status todo")
         (simp_all add: getTodayColumns_def Let_def todoColumn_def getTodosByDateAndStatus_def)
  qed
  have excluded: "todo \<notin> set (getTodosByDate fromISO s ft fromD toD True)"
    if "status todo = Complete \<or> status todo = Canceled"
      "\<not> dateIsInRange fromD toD (findTodoDate fromISO todo (completedDateAttribute s))"
      "\<not> dateIsInRange fromD toD (findTodoDate fromISO todo (dueDateAttribute s))"
    using that op by (simp add: main)
  show ?thesis
    using main [of fromD toD] today excluded by blast
qed

theorem selection_rule_witness:
  "exampleTodo ''p'' AttentionRequired [(''selected'', Flag True)]
     \<in> set (getTodosByDate isoCalendarDate exampleSettings
              [exampleTodo ''p'' AttentionRequired [(''selected'', Flag True)],
               exampleTodo ''q'' Complete
                 [(''selected'', Flag True), (''completed'', Text ''2024-06-01'')]]
              (Some (date 2024 6 10)) (Some (date 2024 6 11)) True)
   \<and> exampleTodo ''q'' Complete [(''selected'', Flag True), (''completed'', Text ''2024-06-01'')]
     \<notin> set (getTodosByDate isoCalendarDate exampleSettings
              [exampleTodo ''p'' AttentionRequired [(''selected'', Flag True)],
               exampleTodo ''q'' Complete
                 [(''selected'', Flag True), (''completed'', Text ''2024-06-01'')]]
              (Some (date 2024 6 10)) (Some (date 2024 6 11)) True)"
proof -
  let ?p = "exampleTodo ''p'' AttentionRequired [(''selected'', Flag True)]"
  let ?q = "exampleTodo ''q'' Complete
              [(''selected'', Flag True), (''completed'', Text ''2024-06-01'')]"
  have p: "spec_selected exampleSettings ?p" "spec_open (status ?p)"
    by (simp_all add: spec_selected_def exampleSettings_def exampleTodo_def)
  have q1: "findTodoDate isoCalendarDate ?q (dueDateAttribute exampleSettings) = None"
    by (simp add: findTodoDate_def exampleSettings_def exampleTodo_def)
  have q2: "findTodoDate isoCalendarDate ?q (completedDateAttribute exampleSettings)
              = Some (date 2024 6 1)"
    by (simp add: findTodoDate_def exampleSettings_def exampleTodo_def
          isoCalendarDate_2024_06_01)
  have q3: "status ?q = Complete" by (simp add: exampleTodo_def)
  have r: "\<not> dateIsInRange (Some (date 2024 6 10)) (Some (date 2024 6 11)) None"
    "\<not> dateIsInRange (Some (date 2024 6 10)) (Some (date 2024 6 11)) (Some (date 2024 6 1))"
    using june_order by (simp_all add: dateIsInRange_def)
  show ?thesis
    using selection_rule [of ?p isoCalendarDate exampleSettings "[?p, ?q]"
        "Some (date 2024 6 10)" "Some (date 2024 6 11)" "date 2024 6 10"]
      selection_rule [of ?q isoCalendarDate exampleSettings "[?p, ?q]"
        "Some (date 2024 6 10)" "Some (date 2024 6 11)" "date 2024 6 10"]
      p q1 q2 q3 r
    by simp
qed

section \<open>Work-in-progress styles\<close>







end
